theory Spec2Isabelle
  imports Complex_Main
begin

section \<open>JavaScript values used by backend/config/index.js\<close>

text \<open>
  A JavaScript number is NaN, an infinity, or a finite double. Every finite double is a
  rational, so the finite case carries a \<open>rat\<close>; the two zeros are identified, as
  SameValueZero (used by \<open>Set\<close>) and the comparison operators do. The type is larger than
  the doubles (every rational is allowed), so a statement for all \<open>jsnum\<close> holds for all
  doubles.
\<close>

datatype jsnum = NaN | PosInf | NegInf | Fin rat

text \<open>\<open>Number.isFinite\<close>.\<close>

fun isFinite :: "jsnum \<Rightarrow> bool" where
  "isFinite (Fin q) = True"
| "isFinite _ = False"

text \<open>The relational operator \<open>a > b\<close> on numbers: false as soon as one side is NaN.\<close>

fun js_gt :: "jsnum \<Rightarrow> jsnum \<Rightarrow> bool" where
  "js_gt NaN _ = False"
| "js_gt _ NaN = False"
| "js_gt (Fin a) (Fin b) = (b < a)"
| "js_gt PosInf PosInf = False"
| "js_gt PosInf _ = True"
| "js_gt _ PosInf = False"
| "js_gt NegInf _ = False"
| "js_gt _ NegInf = True"

definition js_lt :: "jsnum \<Rightarrow> jsnum \<Rightarrow> bool" where
  "js_lt a b = js_gt b a"

text \<open>\<open>a <= b\<close> on numbers.\<close>

definition js_le :: "jsnum \<Rightarrow> jsnum \<Rightarrow> bool" where
  "js_le a b = (a \<noteq> NaN \<and> b \<noteq> NaN \<and> \<not> js_gt a b)"

text \<open>
  \<open>a - b\<close>. On finite operands the double result has the sign of the exact difference
  (two distinct doubles never subtract to zero), and only that sign is read by \<open>sort\<close>.
\<close>

fun js_minus :: "jsnum \<Rightarrow> jsnum \<Rightarrow> jsnum" where
  "js_minus NaN _ = NaN"
| "js_minus _ NaN = NaN"
| "js_minus (Fin a) (Fin b) = Fin (a - b)"
| "js_minus PosInf PosInf = NaN"
| "js_minus NegInf NegInf = NaN"
| "js_minus PosInf _ = PosInf"
| "js_minus NegInf _ = NegInf"
| "js_minus (Fin a) PosInf = NegInf"
| "js_minus (Fin a) NegInf = PosInf"

text \<open>\<open>Math.trunc\<close>: the integer part, rounding towards zero.\<close>

definition trunc_rat :: "rat \<Rightarrow> rat" where
  "trunc_rat q = (if 0 \<le> q then of_int \<lfloor>q\<rfloor> else of_int \<lceil>q\<rceil>)"

fun Math_trunc :: "jsnum \<Rightarrow> jsnum" where
  "Math_trunc (Fin q) = Fin (trunc_rat q)"
| "Math_trunc x = x"

subsection \<open>Strings\<close>

text \<open>
  Values of \<open>process.env\<close> are strings; a variable that is not set reads as
  \<open>undefined\<close>, modelled by \<open>None\<close>.
\<close>

type_synonym env = "string \<Rightarrow> string option"

text \<open>
  A \<open>char\<close> stands for a code unit below 256. White space stripped by
  \<open>String.prototype.trim\<close>, as far as it lies below 256: TAB, LF, VT, FF, CR, SP and
  the no-break space.
\<close>

definition isWhiteSpace :: "char \<Rightarrow> bool" where
  "isWhiteSpace c =
     (c \<in> set [CHR 0x09, CHR 0x0A, CHR 0x0B, CHR 0x0C, CHR 0x0D, CHR '' '', CHR 0xA0])"

definition trim :: "string \<Rightarrow> string" where
  "trim s = rev (dropWhile isWhiteSpace (rev (dropWhile isWhiteSpace s)))"

text \<open>
  \<open>String.prototype.toLowerCase\<close> on code units below 256: the letters A to Z and the
  upper-case letters of the range 0xC0 to 0xDE (0xD7, the multiplication sign, is not a
  letter) move up by 32; every other code unit is kept.
\<close>

definition upperCaseLetters :: string where
  "upperCaseLetters =
     ''ABCDEFGHIJKLMNOPQRSTUVWXYZ'' @
     [CHR 0xC0, CHR 0xC1, CHR 0xC2, CHR 0xC3, CHR 0xC4, CHR 0xC5, CHR 0xC6, CHR 0xC7,
      CHR 0xC8, CHR 0xC9, CHR 0xCA, CHR 0xCB, CHR 0xCC, CHR 0xCD, CHR 0xCE, CHR 0xCF,
      CHR 0xD0, CHR 0xD1, CHR 0xD2, CHR 0xD3, CHR 0xD4, CHR 0xD5, CHR 0xD6, CHR 0xD8,
      CHR 0xD9, CHR 0xDA, CHR 0xDB, CHR 0xDC, CHR 0xDD, CHR 0xDE]"

definition lowerCaseLetters :: string where
  "lowerCaseLetters =
     ''abcdefghijklmnopqrstuvwxyz'' @
     [CHR 0xE0, CHR 0xE1, CHR 0xE2, CHR 0xE3, CHR 0xE4, CHR 0xE5, CHR 0xE6, CHR 0xE7,
      CHR 0xE8, CHR 0xE9, CHR 0xEA, CHR 0xEB, CHR 0xEC, CHR 0xED, CHR 0xEE, CHR 0xEF,
      CHR 0xF0, CHR 0xF1, CHR 0xF2, CHR 0xF3, CHR 0xF4, CHR 0xF5, CHR 0xF6, CHR 0xF8,
      CHR 0xF9, CHR 0xFA, CHR 0xFB, CHR 0xFC, CHR 0xFD, CHR 0xFE]"

definition lowerChar :: "char \<Rightarrow> char" where
  "lowerChar c =
     (case map_of (zip upperCaseLetters lowerCaseLetters) c of
        None \<Rightarrow> c
      | Some d \<Rightarrow> d)"

definition toLowerCase :: "string \<Rightarrow> string" where
  "toLowerCase s = map lowerChar s"

text \<open>\<open>s.split(d)\<close> for a one-character separator: never empty, \<open>''''.split(d) = ['''']\<close>.\<close>

fun split :: "char \<Rightarrow> string \<Rightarrow> string list" where
  "split d [] = [[]]"
| "split d (c # cs) =
     (if c = d then [] # split d cs
      else (case split d cs of [] \<Rightarrow> [[c]] | p # ps \<Rightarrow> (c # p) # ps))"

text \<open>
  \<open>Array.from(new Set(xs))\<close>: the elements of \<open>xs\<close> in order of first occurrence.
\<close>

fun Set_from :: "'a list \<Rightarrow> 'a list \<Rightarrow> 'a list" where
  "Set_from acc [] = acc"
| "Set_from acc (x # xs) = Set_from (if x \<in> set acc then acc else acc @ [x]) xs"

text \<open>
  \<open>xs.sort((a, b) => a - b)\<close>. With a consistent comparator the result of
  \<open>Array.prototype.sort\<close> is the stable sorted permutation, computed here by insertion:
  an element goes behind every element it does not compare below (comparator result
  \<open>> 0\<close> means "after"; NaN counts as 0).
\<close>

definition compareFn :: "jsnum \<Rightarrow> jsnum \<Rightarrow> jsnum" where
  "compareFn a b = js_minus a b"

fun sort_insert :: "jsnum \<Rightarrow> jsnum list \<Rightarrow> jsnum list" where
  "sort_insert x [] = [x]"
| "sort_insert x (y # ys) =
     (if js_gt (compareFn x y) (Fin 0) then y # sort_insert x ys else x # y # ys)"

fun Array_sort :: "jsnum list \<Rightarrow> jsnum list" where
  "Array_sort [] = []"
| "Array_sort (x # xs) = sort_insert x (Array_sort xs)"

section \<open>backend/config/index.js\<close>

text \<open>
  The built-in conversion \<open>Number(string)\<close> is not code of the repository; the
  functions below take it as the parameter \<open>N\<close>, so what is proved holds for every
  conversion function, in particular for the one of the language.
\<close>

definition envOrNull :: "env \<Rightarrow> string \<Rightarrow> string option" where
  "envOrNull e name = (case e name of None \<Rightarrow> None | Some v \<Rightarrow> if v = [] then None else Some v)"

definition parseBoolean :: "string option \<Rightarrow> bool \<Rightarrow> bool" where
  "parseBoolean value defaultValue =
     (case value of
        None \<Rightarrow> defaultValue
      | Some v \<Rightarrow>
          if v = [] then defaultValue
          else let normalized = toLowerCase (trim v) in
            if normalized \<in> set [''1'', ''true'', ''yes'', ''y'', ''on''] then True
            else if normalized \<in> set [''0'', ''false'', ''no'', ''n'', ''off''] then False
            else defaultValue)"

definition parseNumber :: "(string \<Rightarrow> jsnum) \<Rightarrow> string option \<Rightarrow> jsnum \<Rightarrow> jsnum" where
  "parseNumber N value defaultValue =
     (case value of
        None \<Rightarrow> defaultValue
      | Some v \<Rightarrow>
          if v = [] then defaultValue
          else let parsed = N v in if isFinite parsed then parsed else defaultValue)"

definition parseWindowList :: "(string \<Rightarrow> jsnum) \<Rightarrow> string option \<Rightarrow> jsnum list" where
  "parseWindowList N value =
     (case value of
        None \<Rightarrow> []
      | Some v \<Rightarrow>
          if v = [] then []
          else map Math_trunc
                 (filter (\<lambda>num. isFinite num \<and> js_gt num (Fin 0))
                    (map (\<lambda>part. N (trim part)) (split CHR '','' v))))"

definition defaultRollupWindow :: "(string \<Rightarrow> jsnum) \<Rightarrow> env \<Rightarrow> jsnum" where
  "defaultRollupWindow N e = parseNumber N (e ''TELEMETRY_ROLLUP_WINDOW_SECONDS'') (Fin 300)"

definition extraRollupWindows :: "(string \<Rightarrow> jsnum) \<Rightarrow> env \<Rightarrow> jsnum list" where
  "extraRollupWindows N e = parseWindowList N (e ''TELEMETRY_ROLLUP_WINDOWS'')"

definition rollupWindows :: "(string \<Rightarrow> jsnum) \<Rightarrow> env \<Rightarrow> jsnum list" where
  "rollupWindows N e =
     Array_sort
       (map Math_trunc
          (filter (\<lambda>windowSeconds. isFinite windowSeconds \<and> js_gt windowSeconds (Fin 0))
             (Set_from [] (defaultRollupWindow N e # extraRollupWindows N e))))"

definition primaryRollupWindow :: "(string \<Rightarrow> jsnum) \<Rightarrow> env \<Rightarrow> jsnum" where
  "primaryRollupWindow N e =
     (case rollupWindows N e of [] \<Rightarrow> defaultRollupWindow N e | w # _ \<Rightarrow> w)"

record broker_config =
  useTls :: bool
  rejectUnauthorized :: bool

record telemetryDb_config =
  rollupWindowSeconds :: jsnum
  rollupWindows_cfg :: "jsnum list"
  rollupIntervalMs :: jsnum
  rollupCatchUpWindows :: jsnum

record grpc_config =
  enabled :: bool

record config =
  broker :: broker_config
  cacheLimit :: jsnum
  messageWindowMs :: jsnum
  vehicleTtlMs :: jsnum
  telemetryDb :: telemetryDb_config
  grpc :: grpc_config

definition config :: "(string \<Rightarrow> jsnum) \<Rightarrow> env \<Rightarrow> config" where
  "config N e =
     \<lparr> broker =
         \<lparr> useTls = parseBoolean (e ''BROKER_TLS'') False,
           rejectUnauthorized = parseBoolean (e ''BROKER_TLS_REJECT_UNAUTHORIZED'') True \<rparr>,
       cacheLimit = parseNumber N (e ''VEHICLE_CACHE_SIZE'') (Fin 1000),
       messageWindowMs = parseNumber N (e ''MESSAGE_RATE_WINDOW_MS'') (Fin 60000),
       vehicleTtlMs = parseNumber N (e ''VEHICLE_TTL_MS'') (Fin 60000),
       telemetryDb =
         \<lparr> rollupWindowSeconds = primaryRollupWindow N e,
           rollupWindows_cfg = rollupWindows N e,
           rollupIntervalMs = parseNumber N (e ''TELEMETRY_ROLLUP_INTERVAL_MS'') (Fin 60000),
           rollupCatchUpWindows = parseNumber N (e ''TELEMETRY_ROLLUP_CATCHUP_WINDOWS'') (Fin 1) \<rparr>,
       grpc = \<lparr> enabled = parseBoolean (e ''GRPC_ENABLED'') True \<rparr> \<rparr>"

subsection \<open>A conversion function for concrete evaluations\<close>

text \<open>
  \<open>Number(s)\<close> on signed decimal literals without exponent (\<open>300\<close>, \<open>-60\<close>,
  \<open>300.5\<close>, \<open>.5\<close>), on \<open>Infinity\<close> and on the empty string, after the white
  space around the literal is dropped; every other string is taken to NaN. The value is
  exact, which is the double for the literals evaluated in this theory. It instantiates
  the parameter \<open>N\<close> where a statement is run on a concrete environment.
\<close>

definition digitValue :: "char \<Rightarrow> nat option" where
  "digitValue c = map_of (zip ''0123456789'' [0, 1, 2, 3, 4, 5, 6, 7, 8, 9]) c"

fun digitsValue :: "nat \<Rightarrow> string \<Rightarrow> nat option" where
  "digitsValue acc [] = Some acc"
| "digitsValue acc (c # cs) =
     (case digitValue c of None \<Rightarrow> None | Some d \<Rightarrow> digitsValue (10 * acc + d) cs)"

definition Number_decimal :: "string \<Rightarrow> jsnum" where
  "Number_decimal s =
     (let t = trim s in
      if t = [] then Fin 0
      else
        let neg = (hd t = CHR ''-'');
            u = (if hd t = CHR ''-'' \<or> hd t = CHR ''+'' then tl t else t) in
        if u = ''Infinity'' then (if neg then NegInf else PosInf)
        else
          let ip = takeWhile (\<lambda>c. c \<noteq> CHR ''.'') u;
              fp = drop 1 (dropWhile (\<lambda>c. c \<noteq> CHR ''.'') u) in
          if ip = [] \<and> fp = [] then NaN
          else
            (case (digitsValue 0 ip, digitsValue 0 fp) of
               (Some i, Some f) \<Rightarrow>
                 let q = of_nat i + of_nat f / 10 ^ length fp in
                 Fin (if neg then - q else q)
             | _ \<Rightarrow> NaN))"

subsection \<open>Environments used in the concrete evaluations\<close>

definition env_windows :: env where
  "env_windows =
     [''TELEMETRY_ROLLUP_WINDOW_SECONDS'' \<mapsto> ''300'',
      ''TELEMETRY_ROLLUP_WINDOWS'' \<mapsto> ''900, 60,abc,,3600.7,60'']"

definition env_base_zero :: env where
  "env_base_zero =
     [''TELEMETRY_ROLLUP_WINDOW_SECONDS'' \<mapsto> ''0'',
      ''TELEMETRY_ROLLUP_WINDOWS'' \<mapsto> ''900'']"

definition env_negative_base :: env where
  "env_negative_base = [''TELEMETRY_ROLLUP_WINDOW_SECONDS'' \<mapsto> ''-5'']"

definition env_fractional_base :: env where
  "env_fractional_base =
     [''TELEMETRY_ROLLUP_WINDOW_SECONDS'' \<mapsto> ''300.5'',
      ''TELEMETRY_ROLLUP_WINDOWS'' \<mapsto> ''300'']"

section \<open>The vehicle cache and the ingestion step\<close>

text \<open>
  The backend services (\<open>services/vehicle-store.js\<close>, \<open>services/mqtt-service.js\<close>,
  \<open>utils/validation.js\<close>, \<open>utils/geo.js\<close>) are named by the README's layout of the
  backend, but their files are not available. The definitions of this section are
  written from the specification; each says so.
\<close>

subsection \<open>Data\<close>

text \<open>
  Modelled from the spec: the TelemetrySample of section 3 (the sample type of the
  missing services), with the optional \<open>speed\<close> of the transport payload kept optional.
\<close>

record telemetry_sample =
  vehicleId :: string
  latitude :: real
  longitude :: real
  speed :: "real option"
  fuelLevel :: real
  engineStatus :: string
  timestamp :: int
  distanceDeltaKm :: real

text \<open>
  Modelled from the spec: the CacheEntry of section 3 (owned by the missing
  \<open>vehicle-store.js\<close>): the latest sample and the time at which it stops being visible.
\<close>

record cache_entry =
  latest :: telemetry_sample
  expiresAt :: int

text \<open>
  Modelled from the spec: the state of the missing \<open>vehicle-store.js\<close>: the capacity
  bound C, the TTL bound T in milliseconds (0 disables it), and the entries by vehicle
  identity, oldest insertion or refresh first.
\<close>

record vehicle_store =
  capacity :: nat
  ttlMs :: int
  entries :: "(string \<times> cache_entry) list"

text \<open>
  Modelled from the spec: the constructor of the missing \<open>vehicle-store.js\<close>; the store
  starts empty with the configured bounds.
\<close>

definition createVehicleStore :: "nat \<Rightarrow> int \<Rightarrow> vehicle_store" where
  "createVehicleStore C T = \<lparr> capacity = C, ttlMs = T, entries = [] \<rparr>"

subsection \<open>VehicleStore operations\<close>

text \<open>
  Modelled from the spec: the TTL test of the missing \<open>vehicle-store.js\<close>. Section 4.2:
  with T = 0 nothing expires; otherwise an entry not refreshed within T is excluded.
\<close>

definition expired :: "int \<Rightarrow> int \<Rightarrow> cache_entry \<Rightarrow> bool" where
  "expired T now e = (0 < T \<and> expiresAt e < now)"

text \<open>
  Modelled from the spec: \<open>put\<close> of the missing \<open>vehicle-store.js\<close>. Section 4.2: a put
  on an existing identity refreshes value and expiry and never grows the set; the entry
  becomes the newest. When the new identity takes the store over its capacity, the
  oldest entries by insertion or refresh time go first. The clock is a parameter.
\<close>

definition put :: "int \<Rightarrow> telemetry_sample \<Rightarrow> vehicle_store \<Rightarrow> vehicle_store" where
  "put now s st =
     (let others = filter (\<lambda>(k, e). k \<noteq> vehicleId s) (entries st);
          es = others @ [(vehicleId s, \<lparr> latest = s, expiresAt = now + ttlMs st \<rparr>)]
      in st\<lparr> entries := drop (length es - capacity st) es \<rparr>)"

text \<open>
  Modelled from the spec: \<open>get\<close> of the missing \<open>vehicle-store.js\<close>, with the lazy
  eviction that section 4.2 allows: an expired entry is not returned and is removed.
\<close>

definition get :: "int \<Rightarrow> string \<Rightarrow> vehicle_store \<Rightarrow> cache_entry option \<times> vehicle_store" where
  "get now k st =
     (case map_of (entries st) k of
        None \<Rightarrow> (None, st)
      | Some e \<Rightarrow>
          if expired (ttlMs st) now e
          then (None, st\<lparr> entries := filter (\<lambda>(k', e'). k' \<noteq> k) (entries st) \<rparr>)
          else (Some e, st))"

text \<open>
  Modelled from the spec: \<open>evictExpired\<close> of the missing \<open>vehicle-store.js\<close>: the sweep
  that removes every expired entry.
\<close>

definition evictExpired :: "int \<Rightarrow> vehicle_store \<Rightarrow> vehicle_store" where
  "evictExpired now st =
     st\<lparr> entries := filter (\<lambda>(k, e). \<not> expired (ttlMs st) now e) (entries st) \<rparr>"

text \<open>
  Modelled from the spec: \<open>list\<close> of the missing \<open>vehicle-store.js\<close>: the entries that
  are not expired, restricted to the given identities; an empty filter means all.
\<close>

definition list_entries :: "int \<Rightarrow> string list \<Rightarrow> vehicle_store \<Rightarrow> cache_entry list \<times> vehicle_store" where
  "list_entries now ids st =
     (let st' = evictExpired now st
      in (map snd (filter (\<lambda>(k, e). ids = [] \<or> k \<in> set ids) (entries st')), st'))"

text \<open>
  Modelled from the spec: the operations of the VehicleStore contract as values, each
  issued at a time read from the injected clock, and their effect on the store.
\<close>

datatype store_op =
    Put telemetry_sample
  | Get string
  | List "string list"
  | EvictExpired

text \<open>
  Modelled from the spec: the effect of one operation of the missing
  \<open>vehicle-store.js\<close> on the store; the results of get and list are dropped.
\<close>

fun apply_op :: "vehicle_store \<Rightarrow> int \<times> store_op \<Rightarrow> vehicle_store" where
  "apply_op st (now, Put s) = put now s st"
| "apply_op st (now, Get k) = snd (get now k st)"
| "apply_op st (now, List ids) = snd (list_entries now ids st)"
| "apply_op st (now, EvictExpired) = evictExpired now st"

text \<open>
  Modelled from the spec: a history of the store of the missing \<open>vehicle-store.js\<close>:
  the operations applied one after the other, first to last.
\<close>

definition run_ops :: "vehicle_store \<Rightarrow> (int \<times> store_op) list \<Rightarrow> vehicle_store" where
  "run_ops st ops = foldl apply_op st ops"

subsection \<open>Great-circle distance\<close>

text \<open>
  Modelled from the spec: the degree-to-radian conversion of the missing
  \<open>utils/geo.js\<close>; coordinates are degrees of latitude and longitude.
\<close>

definition toRadians :: "real \<Rightarrow> real" where
  "toRadians deg = deg * pi / 180"

text \<open>
  Modelled from the spec: the angle at the centre of the sphere between two points
  given by latitude and longitude, by the haversine formula of the missing
  \<open>utils/geo.js\<close>. Numbers are real numbers, not doubles.
\<close>

definition centralAngle :: "real \<Rightarrow> real \<Rightarrow> real \<Rightarrow> real \<Rightarrow> real" where
  "centralAngle lat1 lon1 lat2 lon2 =
     (let dLat = toRadians (lat2 - lat1);
          dLon = toRadians (lon2 - lon1);
          a = (sin (dLat / 2))\<^sup>2
              + cos (toRadians lat1) * cos (toRadians lat2) * (sin (dLon / 2))\<^sup>2
      in 2 * arcsin (sqrt a))"


subsection \<open>Ingestion\<close>





subsection \<open>Messages and samples used in the concrete evaluations\<close>

text \<open>
  Modelled from the spec: a TelemetrySample of a given vehicle at given coordinates, the
  other fields as in sample A of section 8.
\<close>

definition sample_of :: "string \<Rightarrow> real \<Rightarrow> real \<Rightarrow> telemetry_sample" where
  "sample_of v la lo =
     \<lparr> vehicleId = v, latitude = la, longitude = lo, speed = Some 50, fuelLevel = 80,
       engineStatus = ''running'', timestamp = 0, distanceDeltaKm = 0 \<rparr>"



text \<open>
  Modelled from the spec: samples of the three distinct vehicles V1, V2, V3 of the
  capacity example of section 8.
\<close>

definition sample_V1 :: telemetry_sample where
  "sample_V1 = sample_of ''V1'' 48.85 2.35"

definition sample_V2 :: telemetry_sample where
  "sample_V2 = sample_of ''V2'' 52.52 13.40"

definition sample_V3 :: telemetry_sample where
  "sample_V3 = sample_of ''V3'' 40.71 (- 74.00)"

section \<open>Properties of backend/config/index.js\<close>

subsection \<open>Numbers, lists and sorting\<close>

lemma isFinite_iff: "isFinite x \<longleftrightarrow> (\<exists>q. x = Fin q)"
  by (cases x) auto

lemma parseNumber_finite: "isFinite d \<Longrightarrow> isFinite (parseNumber N v d)"
  by (auto simp: parseNumber_def Let_def split: option.splits)

lemma defaultRollupWindow_finite: "isFinite (defaultRollupWindow N e)"
  by (simp add: defaultRollupWindow_def parseNumber_finite)

lemma trunc_rat_of_int [simp]: "trunc_rat (of_int k) = of_int k"
  by (simp add: trunc_rat_def)

lemma trunc_rat_int: "\<exists>k. trunc_rat q = of_int k"
  by (auto simp: trunc_rat_def)

lemma trunc_rat_nonneg: "0 < q \<Longrightarrow> \<exists>k\<ge>0. trunc_rat q = of_int k"
  by (auto simp: trunc_rat_def intro!: exI[of _ "\<lfloor>q\<rfloor>"])

lemma trunc_rat_pos_iff: "0 < q \<Longrightarrow> 0 < trunc_rat q \<longleftrightarrow> 1 \<le> q"
  by (auto simp: trunc_rat_def)

lemma parseWindowList_elem:
  "x \<in> set (parseWindowList N v) \<Longrightarrow> \<exists>k\<ge>0. x = Fin (of_int k)"
  by (auto simp: parseWindowList_def isFinite_iff split: option.splits if_splits dest: trunc_rat_nonneg)

lemma set_Set_from: "set (Set_from acc xs) = set acc \<union> set xs"
  by (induction xs arbitrary: acc) auto

lemma distinct_Set_from: "distinct acc \<Longrightarrow> distinct (Set_from acc xs)"
  by (induction xs arbitrary: acc) auto

lemma set_sort_insert: "set (sort_insert x ys) = insert x (set ys)"
  by (induction ys) auto

lemma set_Array_sort: "set (Array_sort xs) = set xs"
  by (induction xs) (auto simp: set_sort_insert)

lemma distinct_sort_insert: "distinct (sort_insert x ys) \<longleftrightarrow> x \<notin> set ys \<and> distinct ys"
  by (induction ys) (auto simp: set_sort_insert)

lemma distinct_Array_sort: "distinct (Array_sort xs) \<longleftrightarrow> distinct xs"
  by (induction xs) (auto simp: distinct_sort_insert set_Array_sort)

lemma length_sort_insert: "length (sort_insert x ys) = Suc (length ys)"
  by (induction ys) auto

lemma length_Array_sort: "length (Array_sort xs) = length xs"
  by (induction xs) (auto simp: length_sort_insert)

lemma compare_Fin [simp]: "js_gt (compareFn (Fin a) (Fin b)) (Fin 0) \<longleftrightarrow> b < a"
  by (simp add: compareFn_def)

lemma js_le_Fin [simp]: "js_le (Fin a) (Fin b) \<longleftrightarrow> a \<le> b"
  by (auto simp: js_le_def)

lemma js_lt_Fin [simp]: "js_lt (Fin a) (Fin b) \<longleftrightarrow> a < b"
  by (auto simp: js_lt_def)

lemma sorted_sort_insert:
  "isFinite x \<Longrightarrow> \<forall>y\<in>set ys. isFinite y \<Longrightarrow> sorted_wrt js_le ys \<Longrightarrow> sorted_wrt js_le (sort_insert x ys)"
proof (induction ys)
  case Nil
  then show ?case by simp
next
  case (Cons y ys)
  obtain a where a: "x = Fin a" using Cons.prems(1) by (auto simp: isFinite_iff)
  obtain b where b: "y = Fin b" using Cons.prems(2) by (auto simp: isFinite_iff)
  show ?case
  proof (cases "b < a")
    case True
    have "sorted_wrt js_le (sort_insert x ys)" using Cons by simp
    moreover have "\<forall>z\<in>set (sort_insert x ys). js_le y z"
      using Cons.prems True a b by (auto simp: set_sort_insert)
    ultimately show ?thesis using True a b by simp
  next
    case False
    have "\<forall>z\<in>set ys. js_le x z"
    proof
      fix z assume z: "z \<in> set ys"
      then obtain c where c: "z = Fin c" using Cons.prems(2) by (auto simp: isFinite_iff)
      have "js_le y z" using Cons.prems(3) z by simp
      then show "js_le x z" using False a b c by simp
    qed
    then show ?thesis using False a b Cons.prems(3) by simp
  qed
qed

lemma sorted_Array_sort:
  "\<forall>y\<in>set xs. isFinite y \<Longrightarrow> sorted_wrt js_le (Array_sort xs)"
  by (induction xs) (auto simp: sorted_sort_insert set_Array_sort)

lemma sorted_le_distinct_lt:
  "\<forall>y\<in>set xs. isFinite y \<Longrightarrow> sorted_wrt js_le xs \<Longrightarrow> distinct xs \<Longrightarrow> sorted_wrt js_lt xs"
proof (induction xs)
  case Nil
  then show ?case by simp
next
  case (Cons x xs)
  have "\<forall>z\<in>set xs. js_lt x z"
  proof
    fix z assume z: "z \<in> set xs"
    obtain a where a: "x = Fin a" using Cons.prems(1) by (auto simp: isFinite_iff)
    obtain c where c: "z = Fin c" using Cons.prems(1) z by (auto simp: isFinite_iff)
    have "js_le x z" "x \<noteq> z" using Cons.prems z by auto
    then show "js_lt x z" using a c by auto
  qed
  then show ?case using Cons by simp
qed

lemma rollup_elems_int:
  assumes "defaultRollupWindow N e = Fin (of_int b)"
  shows "\<forall>x\<in>set (defaultRollupWindow N e # extraRollupWindows N e). \<exists>k. x = Fin (of_int k)"
  using assms parseWindowList_elem[of _ N "e ''TELEMETRY_ROLLUP_WINDOWS''"]
  by (auto simp: extraRollupWindows_def)

lemma map_trunc_id:
  "\<forall>x\<in>set xs. \<exists>k. x = Fin (of_int k) \<Longrightarrow> map Math_trunc xs = xs"
  by (induction xs) auto

lemma Math_trunc_finite: "isFinite x \<Longrightarrow> isFinite (Math_trunc x)"
  by (cases x) auto

lemma set_parseWindowList:
  "set (parseWindowList N v) =
     (case v of
        None \<Rightarrow> {}
      | Some s \<Rightarrow>
          if s = [] then {}
          else {Math_trunc (N (trim p)) | p.
                  p \<in> set (split CHR '','' s) \<and> isFinite (N (trim p)) \<and> js_gt (N (trim p)) (Fin 0)})"
  by (auto simp: parseWindowList_def split: option.splits)

lemma floor_numeral_div:
  "\<lfloor>(numeral a :: rat) / numeral b\<rfloor> = numeral a div numeral b"
  using floor_divide_of_int_eq[of "numeral a" "numeral b", where ?'a = rat] by simp

lemmas config_eval =
  floor_numeral_div rollupWindows_def defaultRollupWindow_def parseNumber_def
  extraRollupWindows_def parseWindowList_def Number_decimal_def trim_def isWhiteSpace_def
  digitValue_def trunc_rat_def compareFn_def primaryRollupWindow_def Let_def

subsection \<open>parseBoolean\<close>

lemma norm_empty [simp]: "toLowerCase (trim []) = []"
  by (simp add: toLowerCase_def trim_def)

text \<open>
  Claim C10. \<open>parseBoolean(v, d)\<close>, which decides \<open>config.broker.useTls\<close>,
  \<open>config.broker.rejectUnauthorized\<close> and \<open>config.grpc.enabled\<close>, is a total
  function of its two arguments. It returns true when the trimmed, lower-cased value is one of \<open>1, true, yes, y, on\<close>,
  false when it is one of \<open>0, false, no, n, off\<close>, and the default \<open>d\<close> for every
  other value, the unset and the empty one included. With the default false the result
  is true exactly on the first list; with the default true it is false exactly on the
  second.
\<close>

theorem parseBoolean_spec:
  "parseBoolean v d =
     (case v of
        None \<Rightarrow> d
      | Some s \<Rightarrow>
          if toLowerCase (trim s) \<in> {''1'', ''true'', ''yes'', ''y'', ''on''} then True
          else if toLowerCase (trim s) \<in> {''0'', ''false'', ''no'', ''n'', ''off''} then False
          else d)
   \<and> (parseBoolean v False \<longleftrightarrow>
        (\<exists>s. v = Some s \<and> toLowerCase (trim s) \<in> {''1'', ''true'', ''yes'', ''y'', ''on''}))
   \<and> (\<not> parseBoolean v True \<longleftrightarrow>
        (\<exists>s. v = Some s \<and> toLowerCase (trim s) \<in> {''0'', ''false'', ''no'', ''n'', ''off''}))
   \<and> useTls (broker (config N e)) = parseBoolean (e ''BROKER_TLS'') False
   \<and> rejectUnauthorized (broker (config N e))
        = parseBoolean (e ''BROKER_TLS_REJECT_UNAUTHORIZED'') True
   \<and> enabled (grpc (config N e)) = parseBoolean (e ''GRPC_ENABLED'') True"
proof -
  have eq: "parseBoolean v d =
     (case v of
        None \<Rightarrow> d
      | Some s \<Rightarrow>
          if toLowerCase (trim s) \<in> {''1'', ''true'', ''yes'', ''y'', ''on''} then True
          else if toLowerCase (trim s) \<in> {''0'', ''false'', ''no'', ''n'', ''off''} then False
          else d)" for d
    by (cases v) (auto simp: parseBoolean_def Let_def)
  have cfg: "useTls (broker (config N e)) = parseBoolean (e ''BROKER_TLS'') False"
    "rejectUnauthorized (broker (config N e))
        = parseBoolean (e ''BROKER_TLS_REJECT_UNAUTHORIZED'') True"
    "enabled (grpc (config N e)) = parseBoolean (e ''GRPC_ENABLED'') True"
    by (simp_all add: config_def)
  have "(parseBoolean v False \<longleftrightarrow>
        (\<exists>s. v = Some s \<and> toLowerCase (trim s) \<in> {''1'', ''true'', ''yes'', ''y'', ''on''}))"
    "(\<not> parseBoolean v True \<longleftrightarrow>
        (\<exists>s. v = Some s \<and> toLowerCase (trim s) \<in> {''0'', ''false'', ''no'', ''n'', ''off''}))"
    unfolding eq by (cases v; auto)+
  with eq[of d] cfg show ?thesis by blast
qed

theorem parseBoolean_spec_witness:
  "parseBoolean (Some '' YES '') False = True
   \<and> parseBoolean (Some ''Off'') True = False
   \<and> parseBoolean (Some ''enabled'') True = True
   \<and> parseBoolean (Some ''enabled'') False = False
   \<and> parseBoolean (Some []) True = True
   \<and> parseBoolean None False = False
   \<and> useTls (broker (config Number_decimal [''BROKER_TLS'' \<mapsto> ''On''])) = True
   \<and> enabled (grpc (config Number_decimal [''BROKER_TLS'' \<mapsto> ''On''])) = True"
proof -
  have n: "toLowerCase (trim '' YES '') = ''yes''" "toLowerCase (trim ''Off'') = ''off''"
    "toLowerCase (trim ''enabled'') = ''enabled''" "toLowerCase (trim ''On'') = ''on''"
    by (simp_all add: toLowerCase_def trim_def isWhiteSpace_def lowerChar_def
        upperCaseLetters_def lowerCaseLetters_def)
  show ?thesis
    using parseBoolean_spec[of "Some '' YES ''" False]
      parseBoolean_spec[of "Some ''Off''" True]
      parseBoolean_spec[of "Some ''enabled''" True]
      parseBoolean_spec[of "Some ''enabled''" False]
      parseBoolean_spec[of "Some []" True]
      parseBoolean_spec[of None False]
      parseBoolean_spec[of "Some ''On''" False Number_decimal "[''BROKER_TLS'' \<mapsto> ''On'']"]
      parseBoolean_spec[of None True Number_decimal "[''BROKER_TLS'' \<mapsto> ''On'']"]
    by (simp add: n)
qed

subsection \<open>rollupWindows\<close>

text \<open>
  Claim C1, as amended. When the base window (the value parsed from
  \<open>TELEMETRY_ROLLUP_WINDOW_SECONDS\<close>, 300 by default) is an integer,
  \<open>config.telemetryDb.rollupWindows\<close> is a duplicate-free, strictly ascending list of
  positive integers. Its members are the base window, if that is positive, and the
  truncation of every comma-separated entry of \<open>TELEMETRY_ROLLUP_WINDOWS\<close> that parses
  to a finite positive number, as far as that truncation is positive. The base window is
  a member exactly when it is positive.
\<close>

theorem rollupWindows_integer_base:
  assumes base: "defaultRollupWindow N e = Fin (of_int b)"
  shows "distinct (rollupWindows N e)
    \<and> sorted_wrt js_lt (rollupWindows N e)
    \<and> (\<forall>w\<in>set (rollupWindows N e). \<exists>k>0. w = Fin (of_int k))
    \<and> set (rollupWindows N e) =
        {w. js_gt w (Fin 0) \<and> (w = Fin (of_int b) \<or> w \<in> set (extraRollupWindows N e))}
    \<and> set (extraRollupWindows N e) =
        (case e ''TELEMETRY_ROLLUP_WINDOWS'' of
           None \<Rightarrow> {}
         | Some s \<Rightarrow>
             if s = [] then {}
             else {Math_trunc (N (trim p)) | p.
                     p \<in> set (split CHR '','' s) \<and> isFinite (N (trim p)) \<and> js_gt (N (trim p)) (Fin 0)})
    \<and> (Fin (of_int b) \<in> set (rollupWindows N e) \<longleftrightarrow> 0 < b)"
proof -
  let ?all = "defaultRollupWindow N e # extraRollupWindows N e"
  let ?kept = "filter (\<lambda>w. isFinite w \<and> js_gt w (Fin 0)) (Set_from [] ?all)"
  have ints: "\<forall>x\<in>set ?kept. \<exists>k. x = Fin (of_int k)"
    using rollup_elems_int[OF base] by (auto simp: set_Set_from)
  have rw: "rollupWindows N e = Array_sort ?kept"
    unfolding rollupWindows_def using map_trunc_id[OF ints] by simp
  have fin: "\<forall>x\<in>set ?kept. isFinite x" by simp
  have "distinct (Set_from [] ?all)"
    by (rule distinct_Set_from) simp
  then have dist: "distinct ?kept"
    by (rule distinct_filter)
  have d: "distinct (rollupWindows N e)"
    unfolding rw distinct_Array_sort by (rule dist)
  have fin': "\<forall>x\<in>set (Array_sort ?kept). isFinite x"
    unfolding set_Array_sort using fin .
  have s: "sorted_wrt js_lt (rollupWindows N e)"
    unfolding rw
    by (rule sorted_le_distinct_lt[OF fin' sorted_Array_sort[OF fin]])
       (simp only: distinct_Array_sort dist)
  have m: "set (rollupWindows N e) =
        {w. js_gt w (Fin 0) \<and> (w = Fin (of_int b) \<or> w \<in> set (extraRollupWindows N e))}"
    unfolding rw set_Array_sort using base rollup_elems_int[OF base]
    by (auto simp: set_Set_from)
  have p: "\<forall>w\<in>set (rollupWindows N e). \<exists>k>0. w = Fin (of_int k)"
  proof
    fix w assume "w \<in> set (rollupWindows N e)"
    then have "w \<in> set ?kept" unfolding rw set_Array_sort .
    then obtain k where "w = Fin (of_int k)" "js_gt w (Fin 0)" using ints by auto
    then show "\<exists>k>0. w = Fin (of_int k)" by auto
  qed
  have x: "set (extraRollupWindows N e) =
        (case e ''TELEMETRY_ROLLUP_WINDOWS'' of
           None \<Rightarrow> {}
         | Some s \<Rightarrow>
             if s = [] then {}
             else {Math_trunc (N (trim p)) | p.
                     p \<in> set (split CHR '','' s) \<and> isFinite (N (trim p)) \<and> js_gt (N (trim p)) (Fin 0)})"
    unfolding extraRollupWindows_def by (rule set_parseWindowList)
  have b: "Fin (of_int b) \<in> set (rollupWindows N e) \<longleftrightarrow> 0 < b"
    unfolding m by auto
  show ?thesis using d s p m x b by blast
qed

theorem rollupWindows_integer_base_witness:
  "defaultRollupWindow Number_decimal env_windows = Fin (of_int 300)
   \<and> rollupWindows Number_decimal env_windows = [Fin 60, Fin 300, Fin 900, Fin 3600]
   \<and> distinct (rollupWindows Number_decimal env_windows)
   \<and> sorted_wrt js_lt (rollupWindows Number_decimal env_windows)
   \<and> Fin (of_int 300) \<in> set (rollupWindows Number_decimal env_windows)"
proof -
  have base: "defaultRollupWindow Number_decimal env_windows = Fin (of_int 300)"
    by (simp add: config_eval env_windows_def)
  have run: "rollupWindows Number_decimal env_windows = [Fin 60, Fin 300, Fin 900, Fin 3600]"
    by (simp add: config_eval env_windows_def)
  from rollupWindows_integer_base[OF base] have
    "distinct (rollupWindows Number_decimal env_windows)"
    "sorted_wrt js_lt (rollupWindows Number_decimal env_windows)"
    "Fin (of_int 300) \<in> set (rollupWindows Number_decimal env_windows)"
    by simp_all
  with base run show ?thesis by blast
qed

text \<open>
  Claim C1 as it is written fails: with the base window set to 0 and one extra window
  of 900 seconds the list is \<open>[900]\<close>, and the base window is not a member.
\<close>

theorem rollupWindows_base_not_member:
  "defaultRollupWindow Number_decimal env_base_zero = Fin 0
   \<and> rollupWindows Number_decimal env_base_zero = [Fin 900]
   \<and> defaultRollupWindow Number_decimal env_base_zero
        \<notin> set (rollupWindows Number_decimal env_base_zero)"
  by (simp add: config_eval env_base_zero_def)

text \<open>
  The set is built before the values are truncated, so a fractional base window next to
  an extra window with the same integer part is kept twice.
\<close>

lemma rollupWindows_fractional_base_duplicate:
  "rollupWindows Number_decimal env_fractional_base = [Fin 300, Fin 300]"
  by (simp add: config_eval env_fractional_base_def)

subsection \<open>The primary rollup window\<close>

text \<open>
  Claim C9. When \<open>config.telemetryDb.rollupWindows\<close> is not empty,
  \<open>config.telemetryDb.rollupWindowSeconds\<close> is its minimum: a member that is below
  or equal to every member. So an extra window of \<open>TELEMETRY_ROLLUP_WINDOWS\<close> that is
  positive and smaller than the base window makes the primary window at most that extra
  window, and smaller than the base window. When the list is empty, the base window is
  not positive and \<open>rollupWindowSeconds\<close> is the parsed base value itself.
\<close>

theorem rollupWindowSeconds_minimum:
  "rollupWindowSeconds (telemetryDb (config N e)) = primaryRollupWindow N e
   \<and> rollupWindows_cfg (telemetryDb (config N e)) = rollupWindows N e
   \<and> (rollupWindows N e \<noteq> [] \<longrightarrow>
        primaryRollupWindow N e \<in> set (rollupWindows N e)
        \<and> (\<forall>w\<in>set (rollupWindows N e). js_le (primaryRollupWindow N e) w))
   \<and> (rollupWindows N e = [] \<longrightarrow>
        primaryRollupWindow N e = defaultRollupWindow N e
        \<and> \<not> js_gt (defaultRollupWindow N e) (Fin 0))
   \<and> (\<forall>x\<in>set (extraRollupWindows N e).
        js_gt x (Fin 0) \<and> js_lt x (defaultRollupWindow N e) \<longrightarrow>
          js_le (primaryRollupWindow N e) x
          \<and> js_lt (primaryRollupWindow N e) (defaultRollupWindow N e))"
proof -
  let ?all = "defaultRollupWindow N e # extraRollupWindows N e"
  let ?kept = "map Math_trunc (filter (\<lambda>w. isFinite w \<and> js_gt w (Fin 0)) (Set_from [] ?all))"
  have rw: "rollupWindows N e = Array_sort ?kept"
    unfolding rollupWindows_def by simp
  have fin: "\<forall>x\<in>set ?kept. isFinite x" by (auto simp: Math_trunc_finite)
  have srt: "sorted_wrt js_le (rollupWindows N e)"
    unfolding rw by (rule sorted_Array_sort[OF fin])
  have finr: "\<forall>x\<in>set (rollupWindows N e). isFinite x"
    unfolding rw set_Array_sort using fin .
  have c1: "rollupWindowSeconds (telemetryDb (config N e)) = primaryRollupWindow N e"
    and c2: "rollupWindows_cfg (telemetryDb (config N e)) = rollupWindows N e"
    by (simp_all add: config_def)
  have ne: "rollupWindows N e \<noteq> [] \<longrightarrow>
        primaryRollupWindow N e \<in> set (rollupWindows N e)
        \<and> (\<forall>w\<in>set (rollupWindows N e). js_le (primaryRollupWindow N e) w)"
  proof
    assume "rollupWindows N e \<noteq> []"
    then obtain w ws where ws: "rollupWindows N e = w # ws" by (cases "rollupWindows N e") auto
    have pw: "primaryRollupWindow N e = w" by (simp add: primaryRollupWindow_def ws)
    obtain a where a: "w = Fin a" using finr ws by (auto simp: isFinite_iff)
    have "\<forall>z\<in>set ws. js_le w z" using srt ws by simp
    then show "primaryRollupWindow N e \<in> set (rollupWindows N e)
        \<and> (\<forall>w\<in>set (rollupWindows N e). js_le (primaryRollupWindow N e) w)"
      using pw ws a by auto
  qed
  have em: "rollupWindows N e = [] \<longrightarrow>
        primaryRollupWindow N e = defaultRollupWindow N e
        \<and> \<not> js_gt (defaultRollupWindow N e) (Fin 0)"
  proof
    assume emp: "rollupWindows N e = []"
    have "length (rollupWindows N e) = length ?kept" unfolding rw by (rule length_Array_sort)
    then have "?kept = []" using emp by simp
    then have "filter (\<lambda>w. isFinite w \<and> js_gt w (Fin 0)) (Set_from [] ?all) = []" by simp
    then have "\<not> (isFinite (defaultRollupWindow N e) \<and> js_gt (defaultRollupWindow N e) (Fin 0))"
      by (auto simp: filter_empty_conv set_Set_from)
    then show "primaryRollupWindow N e = defaultRollupWindow N e
        \<and> \<not> js_gt (defaultRollupWindow N e) (Fin 0)"
      using emp defaultRollupWindow_finite[of N e] by (simp add: primaryRollupWindow_def)
  qed
  have ex: "\<forall>x\<in>set (extraRollupWindows N e).
        js_gt x (Fin 0) \<and> js_lt x (defaultRollupWindow N e) \<longrightarrow>
          js_le (primaryRollupWindow N e) x
          \<and> js_lt (primaryRollupWindow N e) (defaultRollupWindow N e)"
  proof (intro ballI impI)
    fix x assume x: "x \<in> set (extraRollupWindows N e)"
      and h: "js_gt x (Fin 0) \<and> js_lt x (defaultRollupWindow N e)"
    obtain k where k: "x = Fin (of_int k)"
      using x parseWindowList_elem[of x N] by (auto simp: extraRollupWindows_def)
    obtain q where q: "defaultRollupWindow N e = Fin q"
      using defaultRollupWindow_finite[of N e] by (auto simp: isFinite_iff)
    have "x \<in> set (filter (\<lambda>w. isFinite w \<and> js_gt w (Fin 0)) (Set_from [] ?all))"
      using x h k by (simp add: set_Set_from)
    then have "Math_trunc x \<in> Math_trunc ` set (filter (\<lambda>w. isFinite w \<and> js_gt w (Fin 0)) (Set_from [] ?all))"
      by (rule imageI)
    then have "Math_trunc x \<in> set ?kept" by (simp only: set_map)
    then have mem: "x \<in> set (rollupWindows N e)" unfolding rw set_Array_sort using k by simp
    then have "rollupWindows N e \<noteq> []" by auto
    with ne mem have le: "js_le (primaryRollupWindow N e) x"
      and pm: "primaryRollupWindow N e \<in> set (rollupWindows N e)" by auto
    obtain p where p: "primaryRollupWindow N e = Fin p" using pm finr by (auto simp: isFinite_iff)
    show "js_le (primaryRollupWindow N e) x
          \<and> js_lt (primaryRollupWindow N e) (defaultRollupWindow N e)"
      using le h k q p by auto
  qed
  show ?thesis using c1 c2 ne em ex by blast
qed

theorem rollupWindowSeconds_minimum_witness:
  "rollupWindows Number_decimal env_windows = [Fin 60, Fin 300, Fin 900, Fin 3600]
   \<and> rollupWindowSeconds (telemetryDb (config Number_decimal env_windows)) = Fin 60
   \<and> js_lt (rollupWindowSeconds (telemetryDb (config Number_decimal env_windows)))
         (defaultRollupWindow Number_decimal env_windows)
   \<and> rollupWindows Number_decimal env_negative_base = []
   \<and> rollupWindowSeconds (telemetryDb (config Number_decimal env_negative_base)) = Fin (- 5)"
  using rollupWindowSeconds_minimum[of Number_decimal env_windows]
    rollupWindowSeconds_minimum[of Number_decimal env_negative_base]
  by (simp add: config_eval config_def env_windows_def env_negative_base_def)

section \<open>Properties of the vehicle cache\<close>

lemma capacity_put [simp]: "capacity (put now s st) = capacity st"
  by (simp add: put_def Let_def)

lemma capacity_get [simp]: "capacity (snd (get now k st)) = capacity st"
  by (simp add: get_def split: option.splits)

lemma capacity_evictExpired [simp]: "capacity (evictExpired now st) = capacity st"
  by (simp add: evictExpired_def)

lemma capacity_list [simp]: "capacity (snd (list_entries now ids st)) = capacity st"
  by (simp add: list_entries_def Let_def)

lemma length_put: "length (entries (put now s st)) \<le> capacity st"
  by (simp add: put_def Let_def)

lemma length_get: "length (entries (snd (get now k st))) \<le> length (entries st)"
  by (simp add: get_def split: option.splits)

lemma length_evictExpired: "length (entries (evictExpired now st)) \<le> length (entries st)"
  by (simp add: evictExpired_def)

lemma length_list: "length (entries (snd (list_entries now ids st))) \<le> length (entries st)"
  by (simp add: list_entries_def Let_def length_evictExpired)

lemma apply_op_bound:
  "length (entries st) \<le> capacity st \<Longrightarrow>
   length (entries (apply_op st op)) \<le> capacity (apply_op st op)
   \<and> capacity (apply_op st op) = capacity st"
proof (cases op)
  case (Pair now o')
  assume b: "length (entries st) \<le> capacity st"
  show ?thesis
  proof (cases o')
    case (Put s) then show ?thesis using Pair by (simp add: length_put)
  next
    case (Get k) then show ?thesis using Pair b length_get[of now k st] by simp
  next
    case (List ids) then show ?thesis using Pair b length_list[of now ids st] by simp
  next
    case EvictExpired then show ?thesis using Pair b length_evictExpired[of now st] by simp
  qed
qed

lemma run_ops_bound:
  "length (entries st) \<le> capacity st \<Longrightarrow>
   length (entries (run_ops st ops)) \<le> capacity st \<and> capacity (run_ops st ops) = capacity st"
proof (induction ops arbitrary: st)
  case Nil
  then show ?case by (simp add: run_ops_def)
next
  case (Cons op ops)
  have "length (entries (apply_op st op)) \<le> capacity (apply_op st op)"
    and c: "capacity (apply_op st op) = capacity st"
    using apply_op_bound[OF Cons.prems, of op] by blast+
  from Cons.IH[OF this(1)] c show ?case by (simp add: run_ops_def)
qed

lemma put_new_full:
  assumes "length (entries st) = capacity st" "0 < capacity st"
    "vehicleId s \<notin> fst ` set (entries st)"
  shows "entries (put now s st) =
     tl (entries st) @ [(vehicleId s, \<lparr> latest = s, expiresAt = now + ttlMs st \<rparr>)]"
proof -
  have f: "filter (\<lambda>(k, e). k \<noteq> vehicleId s) (entries st) = entries st"
    using assms(3) by (force simp: filter_id_conv)
  obtain x xs where xs: "entries st = x # xs" using assms(1,2) by (cases "entries st") auto
  have "entries (put now s st) =
      drop (Suc (length (entries st)) - capacity st)
        (entries st @ [(vehicleId s, \<lparr> latest = s, expiresAt = now + ttlMs st \<rparr>)])"
    by (simp add: put_def Let_def f)
  then show ?thesis using assms(1) xs by simp
qed

lemma put_new_room:
  assumes "length (entries st) < capacity st" "vehicleId s \<notin> fst ` set (entries st)"
  shows "entries (put now s st) =
     entries st @ [(vehicleId s, \<lparr> latest = s, expiresAt = now + ttlMs st \<rparr>)]"
proof -
  have f: "filter (\<lambda>(k, e). k \<noteq> vehicleId s) (entries st) = entries st"
    using assms(2) by (force simp: filter_id_conv)
  show ?thesis using assms(1) by (simp add: put_def Let_def f)
qed

lemma put_refresh:
  assumes "length (entries st) \<le> capacity st" "vehicleId s \<in> fst ` set (entries st)"
  shows "entries (put now s st) =
            filter (\<lambda>(k, e). k \<noteq> vehicleId s) (entries st)
              @ [(vehicleId s, \<lparr> latest = s, expiresAt = now + ttlMs st \<rparr>)]
         \<and> length (entries (put now s st)) \<le> length (entries st)"
proof -
  let ?others = "filter (\<lambda>(k, e). k \<noteq> vehicleId s) (entries st)"
  obtain x where x: "x \<in> set (entries st)" "fst x = vehicleId s"
    using assms(2) by auto
  have "\<not> (case x of (k, e) \<Rightarrow> k \<noteq> vehicleId s)"
    using x(2) by (cases x) simp
  with x(1) have lt: "length ?others < length (entries st)"
    by (rule length_filter_less)
  then have le: "Suc (length ?others) \<le> capacity st" using assms(1) by linarith
  have e: "entries (put now s st) =
      drop (Suc (length ?others) - capacity st)
        (?others @ [(vehicleId s, \<lparr> latest = s, expiresAt = now + ttlMs st \<rparr>)])"
    by (simp add: put_def Let_def)
  have z: "Suc (length ?others) - capacity st = 0" using le by simp
  show ?thesis unfolding e z using lt by simp
qed

lemma put_three:
  assumes "vehicleId s1 \<noteq> vehicleId s2" "vehicleId s1 \<noteq> vehicleId s3" "vehicleId s2 \<noteq> vehicleId s3"
  shows "map fst (entries (put t3 s3 (put t2 s2 (put t1 s1 (createVehicleStore 2 T)))))
         = [vehicleId s2, vehicleId s3]"
  using assms by (simp add: put_def createVehicleStore_def Let_def)

lemmas store_eval = put_def get_def list_entries_def evictExpired_def expired_def
  createVehicleStore_def run_ops_def Let_def

text \<open>
  Claim C2. For every capacity bound C the store holds at most C entries after every
  sequence of operations (put, get, list, evictExpired, at any clock readings). A put of
  a new vehicle identity into a full store evicts the oldest entry by insertion or
  refresh time and keeps the others; into a store with room it evicts nothing; a put of
  an identity already present makes its entry the newest and does not grow the store.
  For C = 2 and distinct vehicles put in the order V1, V2, V3 the contents are exactly
  V2 and V3.
\<close>

theorem vehicle_store_capacity:
  "length (entries (run_ops (createVehicleStore C T) ops)) \<le> C
   \<and> (length (entries st) = capacity st \<and> 0 < capacity st
        \<and> vehicleId s \<notin> fst ` set (entries st) \<longrightarrow>
          entries (put now s st) =
            tl (entries st) @ [(vehicleId s, \<lparr> latest = s, expiresAt = now + ttlMs st \<rparr>)])
   \<and> (length (entries st) < capacity st \<and> vehicleId s \<notin> fst ` set (entries st) \<longrightarrow>
          entries (put now s st) =
            entries st @ [(vehicleId s, \<lparr> latest = s, expiresAt = now + ttlMs st \<rparr>)])
   \<and> (length (entries st) \<le> capacity st \<and> vehicleId s \<in> fst ` set (entries st) \<longrightarrow>
          entries (put now s st) =
            filter (\<lambda>(k, e). k \<noteq> vehicleId s) (entries st)
              @ [(vehicleId s, \<lparr> latest = s, expiresAt = now + ttlMs st \<rparr>)]
          \<and> length (entries (put now s st)) \<le> length (entries st))
   \<and> (vehicleId s1 \<noteq> vehicleId s2 \<and> vehicleId s1 \<noteq> vehicleId s3 \<and> vehicleId s2 \<noteq> vehicleId s3 \<longrightarrow>
          map fst (entries (put t3 s3 (put t2 s2 (put t1 s1 (createVehicleStore 2 T)))))
            = [vehicleId s2, vehicleId s3]
          \<and> map latest (fst (list_entries t4 []
                 (put t3 s3 (put t2 s2 (put t1 s1 (createVehicleStore 2 0))))))
            = [s2, s3])"
proof -
  have a: "length (entries (run_ops (createVehicleStore C T) ops)) \<le> C"
    using run_ops_bound[of "createVehicleStore C T" ops] by (simp add: createVehicleStore_def)
  have d: "map latest (fst (list_entries t4 []
                 (put t3 s3 (put t2 s2 (put t1 s1 (createVehicleStore 2 0))))))
            = [s2, s3]"
    if "vehicleId s1 \<noteq> vehicleId s2" "vehicleId s1 \<noteq> vehicleId s3" "vehicleId s2 \<noteq> vehicleId s3"
    using that
    by (simp add: put_def createVehicleStore_def Let_def list_entries_def evictExpired_def expired_def)
  show ?thesis
    using a put_new_full[of st s now] put_new_room[of st s now] put_refresh[of st s now]
      put_three[of s1 s2 s3 t3 t2 t1 T] d
    by blast
qed

theorem vehicle_store_capacity_witness:
  "length (entries (run_ops (createVehicleStore 2 60000)
      [(1, Put sample_V1), (2, Put sample_V2), (3, Get ''V1''), (4, Put sample_V3),
       (5, List []), (6, Put sample_V2), (7, EvictExpired)])) \<le> 2
   \<and> entries (put 3 sample_V3 (put 2 sample_V2 (put 1 sample_V1 (createVehicleStore 2 60000))))
       = [(''V2'', \<lparr> latest = sample_V2, expiresAt = 60002 \<rparr>),
          (''V3'', \<lparr> latest = sample_V3, expiresAt = 60003 \<rparr>)]
   \<and> map latest (fst (list_entries 4 []
         (put 3 sample_V3 (put 2 sample_V2 (put 1 sample_V1 (createVehicleStore 2 0))))))
       = [sample_V2, sample_V3]
   \<and> map fst (entries (put 3 sample_V1 (put 2 sample_V2 (put 1 sample_V1
         (createVehicleStore 2 60000)))))
       = [''V2'', ''V1'']"
  using vehicle_store_capacity[where C = 2 and T = 60000
      and ops = "[(1, Put sample_V1), (2, Put sample_V2), (3, Get ''V1''), (4, Put sample_V3),
        (5, List []), (6, Put sample_V2), (7, EvictExpired)]"
      and st = "put 2 sample_V2 (put 1 sample_V1 (createVehicleStore 2 60000))"
      and s = sample_V3 and now = 3
      and ?s1.0 = sample_V1 and ?s2.0 = sample_V2 and ?s3.0 = sample_V3
      and ?t1.0 = 1 and ?t2.0 = 2 and ?t3.0 = 3 and ?t4.0 = 4]
    vehicle_store_capacity[where C = 2 and T = 60000 and ops = "[]"
      and st = "put 2 sample_V2 (put 1 sample_V1 (createVehicleStore 2 60000))"
      and s = sample_V1 and now = 3
      and ?s1.0 = sample_V1 and ?s2.0 = sample_V2 and ?s3.0 = sample_V3
      and ?t1.0 = 1 and ?t2.0 = 2 and ?t3.0 = 3 and ?t4.0 = 4]
  by (simp add: store_eval sample_V1_def sample_V2_def sample_V3_def sample_of_def)

section \<open>Properties of the great-circle distance and of ingestion\<close>

subsection \<open>Enclosures of sine and of pi\<close>












subsection \<open>The central angle\<close>




lemma centralAngle_same [simp]: "centralAngle lat lon lat lon = 0"
  by (simp add: centralAngle_def toRadians_def)




subsection \<open>Ingestion\<close>












end
